theory Spec2Isabelle
  imports Complex_Main "HOL-Library.Word" "HOL-Library.Log_Nat"
begin

section \<open>Bytes, errors and callback outcomes\<close>

type_synonym byte = "8 word"
type_synonym bytes = "byte list"
type_synonym int16 = "16 word"

text \<open>
  A JavaScript exception is a value of type \<open>error\<close>: \<open>RangeError\<close> is what
  \<open>DataView\<close>, \<open>Buffer.writeUInt*\<close> and the typed-array constructor throw,
  \<open>CallbackError\<close> is whatever an injected callback throws or rejects with.
\<close>

datatype error = RangeError | CallbackError

text \<open>
  What one invocation of an injected callback of type \<open>void | Promise<void>\<close> does:
  it returns normally (or returns a promise that fulfils), it throws synchronously, or
  it returns a promise that rejects.
\<close>

datatype outcome = Returns | Throws | Rejects

definition and_then :: "error + 'a \<Rightarrow> ('a \<Rightarrow> error + 'b) \<Rightarrow> error + 'b" where
  "and_then r f = (case r of Inl e \<Rightarrow> Inl e | Inr x \<Rightarrow> f x)"

section \<open>JavaScript numbers\<close>

text \<open>
  A JavaScript \<open>number\<close> is an IEEE-754 binary64 value. A finite one is represented by
  its exact rational value; every arithmetic operation computes the exact result and
  rounds it to the nearest value with a 53-bit significand, ties to even (\<open>RN\<close>).
  The exponent range is not bounded and \<open>-0\<close> is identified with \<open>0\<close>: the model is
  exact wherever the results stay in the normal range of binary64.
\<close>

datatype jsnum = NaN | PInf | NInf | Fin rat

definition round_even :: "rat \<Rightarrow> int" where
  "round_even q =
     (let n = \<lfloor>q\<rfloor>; r = q - of_int n
      in if r < 1 / 2 then n else if 1 / 2 < r then n + 1
         else if even n then n else n + 1)"

text \<open>\<open>binexp x\<close> is the binary exponent \<open>\<lfloor>log\<^sub>2 x\<rfloor>\<close> of a positive rational.\<close>

definition binexp :: "rat \<Rightarrow> int" where
  "binexp x =
     (let k = bitlen (fst (quotient_of x)) - bitlen (snd (quotient_of x))
      in if 2 powi k \<le> x then k else k - 1)"

definition RN :: "rat \<Rightarrow> rat" where
  "RN x = (if x = 0 then 0
           else let u = 2 powi (binexp \<bar>x\<bar> - 52) in of_int (round_even (x / u)) * u)"

definition inf_of_sign :: "rat \<Rightarrow> jsnum" where
  "inf_of_sign s = (if s = 0 then NaN else if 0 < s then PInf else NInf)"

fun fneg :: "jsnum \<Rightarrow> jsnum" where
  "fneg NaN = NaN"
| "fneg PInf = NInf"
| "fneg NInf = PInf"
| "fneg (Fin a) = Fin (- a)"

fun fadd :: "jsnum \<Rightarrow> jsnum \<Rightarrow> jsnum" where
  "fadd NaN y = NaN"
| "fadd x NaN = NaN"
| "fadd (Fin a) (Fin b) = Fin (RN (a + b))"
| "fadd PInf NInf = NaN"
| "fadd NInf PInf = NaN"
| "fadd PInf y = PInf"
| "fadd NInf y = NInf"
| "fadd (Fin a) y = y"

definition fsub :: "jsnum \<Rightarrow> jsnum \<Rightarrow> jsnum" where
  "fsub x y = fadd x (fneg y)"

fun fmul :: "jsnum \<Rightarrow> jsnum \<Rightarrow> jsnum" where
  "fmul NaN y = NaN"
| "fmul x NaN = NaN"
| "fmul (Fin a) (Fin b) = Fin (RN (a * b))"
| "fmul (Fin a) PInf = inf_of_sign a"
| "fmul (Fin a) NInf = inf_of_sign (- a)"
| "fmul PInf (Fin b) = inf_of_sign b"
| "fmul NInf (Fin b) = inf_of_sign (- b)"
| "fmul PInf PInf = PInf"
| "fmul NInf NInf = PInf"
| "fmul PInf NInf = NInf"
| "fmul NInf PInf = NInf"

fun fdiv :: "jsnum \<Rightarrow> jsnum \<Rightarrow> jsnum" where
  "fdiv NaN y = NaN"
| "fdiv x NaN = NaN"
| "fdiv (Fin a) (Fin b) = (if b = 0 then inf_of_sign a else Fin (RN (a / b)))"
| "fdiv (Fin a) y = Fin 0"
| "fdiv PInf (Fin b) = (if 0 \<le> b then PInf else NInf)"
| "fdiv NInf (Fin b) = (if 0 \<le> b then NInf else PInf)"
| "fdiv x y = NaN"

text \<open>The order of the non-NaN values, for \<open>Math.min\<close> and \<open>Math.max\<close>.\<close>

fun jle :: "jsnum \<Rightarrow> jsnum \<Rightarrow> bool" where
  "jle NInf y = True"
| "jle x PInf = True"
| "jle (Fin a) (Fin b) = (a \<le> b)"
| "jle x y = False"

definition math_min :: "jsnum \<Rightarrow> jsnum \<Rightarrow> jsnum" where
  "math_min x y = (if x = NaN \<or> y = NaN then NaN else if jle x y then x else y)"

definition math_max :: "jsnum \<Rightarrow> jsnum \<Rightarrow> jsnum" where
  "math_max x y = (if x = NaN \<or> y = NaN then NaN else if jle x y then y else x)"

fun math_floor :: "jsnum \<Rightarrow> jsnum" where
  "math_floor (Fin q) = Fin (of_int \<lfloor>q\<rfloor>)"
| "math_floor x = x"

text \<open>\<open>Math.round\<close> rounds to the nearest integer, a tie towards \<open>+\<infinity>\<close>.\<close>

fun math_round :: "jsnum \<Rightarrow> jsnum" where
  "math_round (Fin q) = Fin (of_int \<lfloor>q + 1 / 2\<rfloor>)"
| "math_round x = x"

text \<open>Truncation towards zero, the integer part taken by \<open>ToIntegerOrInfinity\<close>.\<close>

definition trunc :: "rat \<Rightarrow> int" where
  "trunc q = (if 0 \<le> q then \<lfloor>q\<rfloor> else - \<lfloor>- q\<rfloor>)"

section \<open>Envelope codec: the 16-byte PCM1 header (src/core/pcm.ts)\<close>

record PcmHeader =
  magic :: string
  sample_rate :: int
  channels :: int
  bits :: int
  frame_samps :: int
  reserved :: int

text \<open>\<open>String.fromCharCode\<close> on byte values, and the bytes a Latin-1 string is written as.\<close>

definition fromCharCode :: "bytes \<Rightarrow> string" where
  "fromCharCode bs = map (\<lambda>b. char_of (unat b)) bs"

definition charCodes :: "string \<Rightarrow> bytes" where
  "charCodes s = map (\<lambda>c. word_of_nat (of_char c)) s"

text \<open>
  The \<open>DataView\<close> getters, little-endian; \<open>None\<close> is the \<open>RangeError\<close> of a read that
  does not fit in the view.
\<close>

definition getUint8 :: "bytes \<Rightarrow> nat \<Rightarrow> int option" where
  "getUint8 view off = (if off + 1 \<le> length view then Some (uint (view ! off)) else None)"

definition getUint16 :: "bytes \<Rightarrow> nat \<Rightarrow> int option" where
  "getUint16 view off =
     (if off + 2 \<le> length view
      then Some (uint (view ! off) + uint (view ! (off + 1)) * 2 ^ 8)
      else None)"

definition getUint32 :: "bytes \<Rightarrow> nat \<Rightarrow> int option" where
  "getUint32 view off =
     (if off + 4 \<le> length view
      then Some (uint (view ! off) + uint (view ! (off + 1)) * 2 ^ 8
                 + uint (view ! (off + 2)) * 2 ^ 16 + uint (view ! (off + 3)) * 2 ^ 24)
      else None)"

definition read_magic :: "bytes \<Rightarrow> string option" where
  "read_magic view =
     (case getUint8 view 0 of None \<Rightarrow> None | Some c0 \<Rightarrow>
      case getUint8 view 1 of None \<Rightarrow> None | Some c1 \<Rightarrow>
      case getUint8 view 2 of None \<Rightarrow> None | Some c2 \<Rightarrow>
      case getUint8 view 3 of None \<Rightarrow> None | Some c3 \<Rightarrow>
        Some (fromCharCode [word_of_int c0, word_of_int c1, word_of_int c2, word_of_int c3]))"

definition read_fields :: "bytes \<Rightarrow> string \<Rightarrow> PcmHeader option" where
  "read_fields view m =
     (case getUint32 view 4 of None \<Rightarrow> None | Some sr \<Rightarrow>
      case getUint8 view 8 of None \<Rightarrow> None | Some ch \<Rightarrow>
      case getUint8 view 9 of None \<Rightarrow> None | Some b \<Rightarrow>
      case getUint16 view 10 of None \<Rightarrow> None | Some fs \<Rightarrow>
      case getUint16 view 12 of None \<Rightarrow> None | Some r \<Rightarrow>
        Some \<lparr>magic = m, sample_rate = sr, channels = ch, bits = b,
              frame_samps = fs, reserved = r\<rparr>)"

text \<open>\<open>parsePcmHeader\<close>: \<open>Inr None\<close> is the returned \<open>null\<close>, \<open>Inl\<close> a thrown exception.\<close>

definition parsePcmHeader :: "bytes \<Rightarrow> error + PcmHeader option" where
  "parsePcmHeader buffer =
     (if length buffer < 16 then Inr None
      else case read_magic buffer of None \<Rightarrow> Inl RangeError | Some m \<Rightarrow>
        if m \<noteq> ''PCM1'' then Inr None
        else case read_fields buffer m of None \<Rightarrow> Inl RangeError
             | Some h \<Rightarrow> Inr (Some h))"

text \<open>Overwriting a buffer from offset \<open>off\<close> with the bytes \<open>bs\<close> (which fit).\<close>

definition splice :: "bytes \<Rightarrow> nat \<Rightarrow> bytes \<Rightarrow> bytes" where
  "splice buf off bs = take off buf @ bs @ drop (off + length bs) buf"

text \<open>\<open>buf.write(s, off, len)\<close>: at most \<open>len\<close> bytes, and no more than fit.\<close>

definition write_str :: "bytes \<Rightarrow> string \<Rightarrow> nat \<Rightarrow> nat \<Rightarrow> bytes" where
  "write_str buf s off len =
     splice buf off (take (min len (length buf - off)) (charCodes s))"

text \<open>
  The \<open>Buffer\<close> writers throw a \<open>RangeError\<close> for a value outside the field's width
  and for an offset outside the buffer; otherwise they store the value byte by byte,
  least significant first, each store keeping the low 8 bits.
\<close>

definition writeUInt8 :: "bytes \<Rightarrow> int \<Rightarrow> nat \<Rightarrow> error + bytes" where
  "writeUInt8 buf v off =
     (if v < 0 \<or> 2 ^ 8 - 1 < v \<or> length buf < off + 1 then Inl RangeError
      else Inr (splice buf off [word_of_int v]))"

definition writeUInt16LE :: "bytes \<Rightarrow> int \<Rightarrow> nat \<Rightarrow> error + bytes" where
  "writeUInt16LE buf v off =
     (if v < 0 \<or> 2 ^ 16 - 1 < v \<or> length buf < off + 2 then Inl RangeError
      else Inr (splice buf off [word_of_int v, word_of_int (v div 2 ^ 8)]))"

definition writeUInt32LE :: "bytes \<Rightarrow> int \<Rightarrow> nat \<Rightarrow> error + bytes" where
  "writeUInt32LE buf v off =
     (if v < 0 \<or> 2 ^ 32 - 1 < v \<or> length buf < off + 4 then Inl RangeError
      else Inr (splice buf off [word_of_int v, word_of_int (v div 2 ^ 8),
                                word_of_int (v div 2 ^ 16), word_of_int (v div 2 ^ 24)]))"

definition createPcmHeader :: "int \<Rightarrow> int \<Rightarrow> int \<Rightarrow> int \<Rightarrow> error + bytes" where
  "createPcmHeader sampleRate chans bts frameSamps =
     and_then (Inr (write_str (replicate 16 0) ''PCM1'' 0 4)) (\<lambda>b0.
     and_then (writeUInt32LE b0 sampleRate 4) (\<lambda>b1.
     and_then (writeUInt8 b1 chans 8) (\<lambda>b2.
     and_then (writeUInt8 b2 bts 9) (\<lambda>b3.
     and_then (writeUInt16LE b3 frameSamps 10) (\<lambda>b4.
     and_then (writeUInt16LE b4 0 12) (\<lambda>b5.
     writeUInt16LE b5 0 14))))))"

text \<open>
  The value of a byte sequence read little-endian, as the wire format table of the
  specification words it: byte \<open>i\<close> has weight \<open>256\<^sup>i\<close>.
\<close>

fun le_value :: "bytes \<Rightarrow> int" where
  "le_value [] = 0"
| "le_value (b # bs) = uint b + 256 * le_value bs"

definition calculateDuration :: "jsnum \<Rightarrow> jsnum \<Rightarrow> jsnum \<Rightarrow> jsnum \<Rightarrow> jsnum" where
  "calculateDuration dataSize sampleRate chans bitsPerSample =
     (let bytesPerSample = fmul (fdiv bitsPerSample (Fin 8)) chans;
          totalSamples = fdiv dataSize bytesPerSample
      in fdiv totalSamples sampleRate)"

section \<open>Session store (SessionManager)\<close>

text \<open>
  The values \<open>setSessionData\<close> is given, as far as this development needs them:
  numbers, strings, \<open>null\<close>, an array of buffers and a header object.
\<close>

datatype jsval = JNum int | JStr string | JNull | JChunks "bytes list" | JHeader PcmHeader

text \<open>
  A session object: the five properties the \<open>StreamingSession\<close> interface declares and
  \<open>createSession\<close> sets, and \<open>extra\<close>, every other own property the object has been given.
  Timestamps and byte counts are JavaScript numbers holding integers.
\<close>

record StreamingSession =
  sessionId :: string
  dataChunks :: "bytes list"
  startTime :: int
  totalBytes :: int
  header :: "PcmHeader option"
  extra :: "string \<rightharpoonup> jsval"

text \<open>The limits of \<open>SessionConfig\<close> are byte counts, chunk counts and milliseconds.\<close>

record SessionConfig =
  maxBytes :: nat
  maxDurationMs :: nat
  maxChunks :: nat
  idleTimeoutMs :: nat

definition defaultConfig :: SessionConfig where
  "defaultConfig =
     \<lparr>maxBytes = 5 * 1024 * 1024, maxDurationMs = 60000, maxChunks = 200,
      idleTimeoutMs = 5000\<rparr>"

text \<open>
  The injected callbacks, each optional. A callback is modelled by the outcome of
  invoking it on its arguments; it is taken not to modify the session it is handed.
\<close>

record SessionCallbacks =
  onCreate :: "(StreamingSession \<Rightarrow> outcome) option"
  onEnd :: "(StreamingSession \<Rightarrow> outcome) option"
  onLimitExceeded :: "(StreamingSession \<Rightarrow> string \<Rightarrow> outcome) option"
  onIdle :: "(StreamingSession \<Rightarrow> outcome) option"

record SessionManager =
  sessions :: "string \<rightharpoonup> StreamingSession"
  lastActivity :: "string \<rightharpoonup> int"
  config :: SessionConfig
  callbacks :: SessionCallbacks

definition newSessionManager :: "SessionConfig \<Rightarrow> SessionCallbacks \<Rightarrow> SessionManager" where
  "newSessionManager cfg cbs =
     \<lparr>sessions = Map.empty, lastActivity = Map.empty, config = cfg, callbacks = cbs\<rparr>"

text \<open>What an operation does besides changing the manager, in the order it happens.\<close>

datatype event =
    ConsoleLog string
  | ConsoleWarn string
  | ConsoleError string
  | Called_onCreate StreamingSession
  | Called_onEnd StreamingSession
  | Called_onLimitExceeded StreamingSession string

text \<open>
  \<open>createSession\<close>; \<open>t1\<close> and \<open>t2\<close> are the two readings of \<open>Date.now()\<close>. The callback
  is invoked inside the argument of \<open>Promise.resolve(...)\<close>: a promise that rejects is
  caught and logged (after the function has returned), a synchronous throw leaves
  \<open>createSession\<close> before \<open>Promise.resolve\<close> is reached and before the final log line.
\<close>

definition createSession ::
  "SessionManager \<Rightarrow> string \<Rightarrow> PcmHeader option \<Rightarrow> int \<Rightarrow> int
     \<Rightarrow> (error + StreamingSession) \<times> SessionManager \<times> event list" where
  "createSession m sid hdr t1 t2 =
     (let session = \<lparr>sessionId = sid, dataChunks = [], startTime = t1, totalBytes = 0,
                      header = hdr, extra = Map.empty\<rparr>;
          m' = m\<lparr>sessions := (sessions m)(sid \<mapsto> session),
                 lastActivity := (lastActivity m)(sid \<mapsto> t2)\<rparr>
      in case onCreate (callbacks m) of
           None \<Rightarrow> (Inr session, m', [ConsoleLog ''Session created''])
         | Some f \<Rightarrow>
             (case f session of
                Throws \<Rightarrow> (Inl CallbackError, m', [Called_onCreate session])
              | Rejects \<Rightarrow>
                  (Inr session, m',
                   [Called_onCreate session, ConsoleLog ''Session created'',
                    ConsoleError ''Error in onCreate callback''])
              | Returns \<Rightarrow>
                  (Inr session, m',
                   [Called_onCreate session, ConsoleLog ''Session created''])))"

definition getSession :: "SessionManager \<Rightarrow> string \<Rightarrow> StreamingSession option" where
  "getSession m sid = sessions m sid"

definition hasSession :: "SessionManager \<Rightarrow> string \<Rightarrow> bool" where
  "hasSession m sid = (sessions m sid \<noteq> None)"

definition setHeader ::
  "SessionManager \<Rightarrow> string \<Rightarrow> PcmHeader \<Rightarrow> int \<Rightarrow> bool \<times> SessionManager" where
  "setHeader m sid h t =
     (case sessions m sid of
        None \<Rightarrow> (False, m)
      | Some session \<Rightarrow>
          (True, m\<lparr>sessions := (sessions m)(sid \<mapsto> session\<lparr>header := Some h\<rparr>),
                   lastActivity := (lastActivity m)(sid \<mapsto> t)\<rparr>))"

text \<open>
  The rejection path shared by the three quota checks of \<open>addChunk\<close>: a warning, the
  \<open>onLimitExceeded\<close> callback if one is installed, then \<open>return false\<close>. The callback
  is called synchronously and unguarded, so its throw leaves \<open>addChunk\<close>; a promise it
  returns is not looked at.
\<close>

definition limit_exceeded ::
  "SessionManager \<Rightarrow> StreamingSession \<Rightarrow> string
     \<Rightarrow> (error + bool) \<times> SessionManager \<times> event list" where
  "limit_exceeded m session reason =
     (case onLimitExceeded (callbacks m) of
        None \<Rightarrow> (Inr False, m, [ConsoleWarn reason])
      | Some f \<Rightarrow>
          (if f session reason = Throws
           then (Inl CallbackError, m,
                 [ConsoleWarn reason, Called_onLimitExceeded session reason])
           else (Inr False, m,
                 [ConsoleWarn reason, Called_onLimitExceeded session reason])))"

text \<open>
  \<open>addChunk\<close>; \<open>t1\<close> is the reading of \<open>Date.now()\<close> for the duration check, \<open>t2\<close> the
  one stored as last activity.
\<close>

definition addChunk ::
  "SessionManager \<Rightarrow> string \<Rightarrow> bytes \<Rightarrow> int \<Rightarrow> int
     \<Rightarrow> (error + bool) \<times> SessionManager \<times> event list" where
  "addChunk m sid chunk t1 t2 =
     (case sessions m sid of
        None \<Rightarrow> (Inr False, m, [ConsoleWarn ''Session not found''])
      | Some session \<Rightarrow>
          (let newTotalBytes = totalBytes session + int (length chunk) in
           if newTotalBytes > int (maxBytes (config m))
           then limit_exceeded m session ''max_bytes''
           else if t1 - startTime session > int (maxDurationMs (config m))
           then limit_exceeded m session ''max_duration''
           else if length (dataChunks session) \<ge> maxChunks (config m)
           then limit_exceeded m session ''max_chunks''
           else (Inr True,
                 m\<lparr>sessions := (sessions m)(sid \<mapsto>
                       session\<lparr>dataChunks := dataChunks session @ [chunk],
                               totalBytes := newTotalBytes\<rparr>),
                   lastActivity := (lastActivity m)(sid \<mapsto> t2)\<rparr>,
                 [])))"

definition getAudioData :: "SessionManager \<Rightarrow> string \<Rightarrow> bytes option" where
  "getAudioData m sid =
     (case sessions m sid of
        None \<Rightarrow> None
      | Some session \<Rightarrow>
          (if length (dataChunks session) = 0 then None
           else Some (concat (dataChunks session))))"

record Stats =
  st_duration :: int
  st_totalBytes :: int
  st_chunkCount :: nat
  st_audioDuration :: jsnum

definition getStats :: "SessionManager \<Rightarrow> string \<Rightarrow> int \<Rightarrow> Stats option" where
  "getStats m sid now =
     (case sessions m sid of
        None \<Rightarrow> None
      | Some session \<Rightarrow>
          Some \<lparr>st_duration = now - startTime session,
                st_totalBytes = totalBytes session,
                st_chunkCount = length (dataChunks session),
                st_audioDuration =
                  (case header session of
                     None \<Rightarrow> Fin 0
                   | Some h \<Rightarrow>
                       if totalBytes session > 0
                       then calculateDuration (Fin (of_int (totalBytes session)))
                              (Fin (of_int (sample_rate h))) (Fin (of_int (channels h)))
                              (Fin (of_int (bits h)))
                       else Fin 0)\<rparr>)"

text \<open>
  \<open>endSession\<close> is \<open>async\<close>: the result is what its promise settles to, \<open>Inl\<close> a
  rejection. The session is deleted before \<open>onEnd\<close> is awaited, and an \<open>onEnd\<close> that
  throws or rejects rejects the promise before the final log line.
\<close>

definition endSession ::
  "SessionManager \<Rightarrow> string
     \<Rightarrow> (error + StreamingSession option) \<times> SessionManager \<times> event list" where
  "endSession m sid =
     (case sessions m sid of
        None \<Rightarrow> (Inr None, m, [])
      | Some session \<Rightarrow>
          (let m' = m\<lparr>sessions := (sessions m)(sid := None),
                       lastActivity := (lastActivity m)(sid := None)\<rparr>
           in case onEnd (callbacks m) of
                None \<Rightarrow> (Inr (Some session), m', [ConsoleLog ''Session ended''])
              | Some f \<Rightarrow>
                  (if f session = Returns
                   then (Inr (Some session), m',
                         [Called_onEnd session, ConsoleLog ''Session ended''])
                   else (Inl CallbackError, m', [Called_onEnd session]))))"

text \<open>
  \<open>(session as any)[key] = value\<close>: the assignment goes to the session object itself, so
  a key that names one of its declared properties replaces that property, and any
  other key adds or replaces an extra one. \<open>None\<close> marks an assignment that gives a
  declared property a value of another type than the interface declares, which the
  record cannot hold. Assigning \<open>__proto__\<close> changes no own property.
\<close>

definition assign_prop :: "StreamingSession \<Rightarrow> string \<Rightarrow> jsval \<Rightarrow> StreamingSession option" where
  "assign_prop session key v =
     (if key = ''sessionId''
      then (case v of JStr x \<Rightarrow> Some (session\<lparr>sessionId := x\<rparr>) | _ \<Rightarrow> None)
      else if key = ''dataChunks''
      then (case v of JChunks cs \<Rightarrow> Some (session\<lparr>dataChunks := cs\<rparr>) | _ \<Rightarrow> None)
      else if key = ''startTime''
      then (case v of JNum n \<Rightarrow> Some (session\<lparr>startTime := n\<rparr>) | _ \<Rightarrow> None)
      else if key = ''totalBytes''
      then (case v of JNum n \<Rightarrow> Some (session\<lparr>totalBytes := n\<rparr>) | _ \<Rightarrow> None)
      else if key = ''header''
      then (case v of JHeader h \<Rightarrow> Some (session\<lparr>header := Some h\<rparr>)
                    | JNull \<Rightarrow> Some (session\<lparr>header := None\<rparr>)
                    | _ \<Rightarrow> None)
      else if key = ''__proto__'' then Some session
      else Some (session\<lparr>extra := (extra session)(key \<mapsto> v)\<rparr>))"

definition setSessionData ::
  "SessionManager \<Rightarrow> string \<Rightarrow> string \<Rightarrow> jsval \<Rightarrow> (bool \<times> SessionManager) option" where
  "setSessionData m sid key v =
     (case sessions m sid of
        None \<Rightarrow> Some (False, m)
      | Some session \<Rightarrow>
          (case assign_prop session key v of
             None \<Rightarrow> None
           | Some session' \<Rightarrow>
               Some (True, m\<lparr>sessions := (sessions m)(sid \<mapsto> session')\<rparr>)))"

text \<open>A run of \<open>addChunk\<close> calls, each with its session id, chunk and clock readings.\<close>

fun addChunks ::
  "SessionManager \<Rightarrow> (string \<times> bytes \<times> int \<times> int) list \<Rightarrow> SessionManager" where
  "addChunks m [] = m"
| "addChunks m ((sid, chunk, t1, t2) # calls) =
     addChunks (fst (snd (addChunk m sid chunk t1 t2))) calls"

text \<open>The chunks of the calls for \<open>sid\<close> that \<open>addChunk\<close> admitted, in call order.\<close>

fun admitted ::
  "SessionManager \<Rightarrow> string \<Rightarrow> (string \<times> bytes \<times> int \<times> int) list \<Rightarrow> bytes list" where
  "admitted m sid [] = []"
| "admitted m sid ((sid', chunk, t1, t2) # calls) =
     (if sid' = sid \<and> fst (addChunk m sid' chunk t1 t2) = Inr True then [chunk] else [])
     @ admitted (fst (snd (addChunk m sid' chunk t1 t2))) sid calls"

section \<open>Protocol engine (VoiceWebSocketServer.handleMessage)\<close>

text \<open>
  An inbound frame as \<open>handleMessage\<close> tells them apart: \<open>Buffer.isBuffer(data)\<close> holds
  for a binary frame and fails for a textual one.
\<close>

datatype frame = TextFrame string | BinaryFrame bytes

datatype message =
    MsgHeader bytes PcmHeader
  | MsgAudio bytes
  | MsgEnd
  | MsgText string

text \<open>
  The per-connection \<open>SessionInfo\<close>: \<open>conn_header = None\<close> is the state
  \<open>AWAITING_HEADER\<close>, \<open>Some h\<close> is \<open>STREAMING\<close>.
\<close>

record SessionInfo =
  conn_sessionId :: string
  conn_header :: "PcmHeader option"
  isAlive :: bool

record WebSocketHandlers =
  onMessage :: "(string \<Rightarrow> message \<Rightarrow> outcome) option"

datatype ws_event =
    Emitted message
  | Warned string
  | LoggedError string
  | SentError

text \<open>The \<open>catch\<close> block: the error is logged and an error message sent to the peer.\<close>

definition on_failure :: "ws_event list" where
  "on_failure = [LoggedError ''Error processing message'', SentError]"

text \<open>
  The bytes whose UTF-8 decoding is the string \<open>PCM1\<close>, and those of \<open>END\<close> followed
  by NUL: decoding yields an ASCII string only from its own ASCII bytes.
\<close>

definition PCM1_bytes :: bytes where
  "PCM1_bytes = [0x50, 0x43, 0x4D, 0x31]"

definition END_bytes :: bytes where
  "END_bytes = [0x45, 0x4E, 0x44, 0x00]"

text \<open>
  \<open>handleMessage\<close> is an \<open>async\<close> function: a call runs synchronously up to its
  \<open>await\<close> of the handler's result, and the rest of the call runs later, once that
  result has settled. \<open>branch\<close> is where a suspended call stands, and \<open>Suspended r b\<close>
  a call suspended in branch \<open>b\<close> whose awaited result fulfils (\<open>r = Returns\<close>) or
  rejects (\<open>r = Rejects\<close>).
\<close>

datatype branch = InText | InHeader | InEnd | InAudio

datatype suspended = Suspended outcome branch

text \<open>
  The statement \<open>if (this.handlers.onMessage) { await this.handlers.onMessage(...) }\<close>
  of a branch, with what follows it. Without a handler nothing is awaited and the
  branch finishes at once, the end branch by resetting the header. The handler itself
  is called synchronously: if it throws, the \<open>catch\<close> block runs at once; otherwise
  the call is suspended at the \<open>await\<close>.
\<close>

definition await_handler ::
  "WebSocketHandlers \<Rightarrow> SessionInfo \<Rightarrow> message \<Rightarrow> branch
     \<Rightarrow> SessionInfo \<times> ws_event list \<times> suspended option" where
  "await_handler h session msg b =
     (case onMessage h of
        None \<Rightarrow>
          (if b = InEnd then session\<lparr>conn_header := None\<rparr> else session, [], None)
      | Some f \<Rightarrow>
          (case f (conn_sessionId session) msg of
             Throws \<Rightarrow> (session, Emitted msg # on_failure, None)
           | Returns \<Rightarrow> (session, [Emitted msg], Some (Suspended Returns b))
           | Rejects \<Rightarrow> (session, [Emitted msg], Some (Suspended Rejects b))))"

text \<open>
  The synchronous part of a call of \<open>handleMessage\<close>: the session as the call leaves
  it, the events so far, and the suspended rest of the call if it reached its
  \<open>await\<close>. The header branch stores the header before it awaits the handler.
\<close>

definition handleMessage ::
  "WebSocketHandlers \<Rightarrow> SessionInfo \<Rightarrow> frame
     \<Rightarrow> SessionInfo \<times> ws_event list \<times> suspended option" where
  "handleMessage h session fr =
     (case fr of
        TextFrame txt \<Rightarrow> await_handler h session (MsgText txt) InText
      | BinaryFrame data \<Rightarrow>
          if conn_header session = None \<and> 16 \<le> length data \<and> take 4 data = PCM1_bytes
          then (case read_fields data ''PCM1'' of
                  None \<Rightarrow> (session, on_failure, None)
                | Some hdr \<Rightarrow>
                    await_handler h (session\<lparr>conn_header := Some hdr\<rparr>)
                      (MsgHeader data hdr) InHeader)
          else if length data = 4 \<and> data = END_bytes
          then await_handler h session MsgEnd InEnd
          else if conn_header session \<noteq> None
          then await_handler h session (MsgAudio data) InAudio
          else (session, [Warned ''Received data before PCM header''], None))"

text \<open>
  The rest of a suspended call, run on the session as it is by then: a rejection
  lands in the \<open>catch\<close> block; otherwise the end branch goes on to reset the header
  (\<open>session.header = null\<close> stands after the \<open>await\<close>) and the other branches return.
\<close>

definition resume :: "SessionInfo \<Rightarrow> suspended \<Rightarrow> SessionInfo \<times> ws_event list" where
  "resume session k =
     (case k of
        Suspended r b \<Rightarrow>
          if r = Rejects then (session, on_failure)
          else if b = InEnd then (session\<lparr>conn_header := None\<rparr>, [])
          else (session, []))"

text \<open>
  A connection is its \<open>SessionInfo\<close> and the suspended calls, oldest first. The
  \<open>message\<close> listener calls \<open>handleMessage\<close> and does not await it: \<open>Deliver fr\<close> is
  one such call, made while earlier calls may still be suspended, and \<open>Resume i\<close>
  lets the \<open>i\<close>-th suspended call run to its end (nothing happens if there is none).
\<close>

datatype action = Deliver frame | Resume nat

fun step ::
  "WebSocketHandlers \<Rightarrow> SessionInfo \<times> suspended list \<Rightarrow> action
     \<Rightarrow> (SessionInfo \<times> suspended list) \<times> ws_event list" where
  "step h (session, pending) (Deliver fr) =
     (case handleMessage h session fr of
        (session', evs, k) \<Rightarrow>
          ((session', pending @ (case k of None \<Rightarrow> [] | Some c \<Rightarrow> [c])), evs))"
| "step h (session, pending) (Resume i) =
     (if i < length pending
      then (case resume session (pending ! i) of
              (session', evs) \<Rightarrow> ((session', take i pending @ drop (Suc i) pending), evs))
      else ((session, pending), []))"

fun run ::
  "WebSocketHandlers \<Rightarrow> SessionInfo \<times> suspended list \<Rightarrow> action list
     \<Rightarrow> (SessionInfo \<times> suspended list) \<times> ws_event list" where
  "run h st [] = (st, [])"
| "run h st (a # as) =
     (case step h st a of
        (st', evs) \<Rightarrow> (case run h st' as of (st'', evs') \<Rightarrow> (st'', evs @ evs')))"

section \<open>Audio normalizer: resampling (src/core/audio-conversion.ts)\<close>

text \<open>
  Reading \<open>pcm[k]\<close> from an \<open>Int16Array\<close> and using it as a number: the element if \<open>k\<close>
  is an integer index inside the array, otherwise \<open>undefined\<close>, which arithmetic
  turns into \<open>NaN\<close>.
\<close>

fun elem :: "int16 list \<Rightarrow> jsnum \<Rightarrow> jsnum" where
  "elem pcm (Fin q) =
     (if q = of_int \<lfloor>q\<rfloor> \<and> 0 \<le> q \<and> \<lfloor>q\<rfloor> < int (length pcm)
      then Fin (of_int (sint (pcm ! nat \<lfloor>q\<rfloor>))) else NaN)"
| "elem pcm k = NaN"

text \<open>Storing a number into an \<open>Int16Array\<close>: \<open>NaN\<close> and the infinities are stored as 0.\<close>

fun to_int16 :: "jsnum \<Rightarrow> int16" where
  "to_int16 (Fin q) = word_of_int (trunc q)"
| "to_int16 x = 0"

text \<open>
  \<open>new Int16Array(n)\<close>, the length of the array or a \<open>RangeError\<close>: \<open>NaN\<close> gives length
  0, a negative or infinite length throws. Limits of the engine's memory are not
  modelled.
\<close>

fun new_Int16Array :: "jsnum \<Rightarrow> error + nat" where
  "new_Int16Array NaN = Inr 0"
| "new_Int16Array (Fin q) =
     (if trunc q < 0 \<or> 2 ^ 53 - 1 < trunc q then Inl RangeError else Inr (nat (trunc q)))"
| "new_Int16Array x = Inl RangeError"

text \<open>The body of the loop of \<open>resampleInt16Mono\<close>: the value stored at \<open>out[i]\<close>.\<close>

definition resample_at :: "int16 list \<Rightarrow> jsnum \<Rightarrow> nat \<Rightarrow> int16" where
  "resample_at pcm ratio i =
     (let srcPos = fdiv (Fin (of_nat i)) ratio;
          i0 = math_floor srcPos;
          i1 = math_min (Fin (of_int (int (length pcm) - 1))) (fadd i0 (Fin 1));
          t = fsub srcPos i0;
          s = fadd (fmul (fsub (Fin 1) t) (elem pcm i0)) (fmul t (elem pcm i1))
      in to_int16 (math_max (Fin (- 32768)) (math_min (Fin 32767) (math_round s))))"

text \<open>
  \<open>resampleInt16Mono\<close>; the sample rates are unsigned integers (the callers pass what
  they read from 32-bit header fields, or a target rate). The loop runs \<open>i\<close> over the
  indices of the freshly allocated array while \<open>i < outLen\<close>, which are all of them.
\<close>

definition resampleInt16Mono :: "int16 list \<Rightarrow> nat \<Rightarrow> nat \<Rightarrow> error + int16 list" where
  "resampleInt16Mono pcm srcRate dstRate =
     (if srcRate = dstRate then Inr pcm
      else
        let ratio = fdiv (Fin (of_nat dstRate)) (Fin (of_nat srcRate));
            outLen = math_max (Fin 1) (math_floor (fmul (Fin (of_nat (length pcm))) ratio))
        in case new_Int16Array outLen of
             Inl e \<Rightarrow> Inl e
           | Inr n \<Rightarrow> Inr (map (resample_at pcm ratio) [0..<n]))"

section \<open>Auxiliary notions and example states\<close>

text \<open>
  The accounting invariant of a session under a configuration: the byte counter is
  the sum of the chunk lengths and does not exceed the byte limit.
\<close>

definition accounted :: "SessionConfig \<Rightarrow> StreamingSession \<Rightarrow> bool" where
  "accounted cfg s \<longleftrightarrow>
     totalBytes s = int (sum_list (map length (dataChunks s)))
     \<and> totalBytes s \<le> int (maxBytes cfg)"

text \<open>
  The length \<open>resampleInt16Mono\<close> computes for its output: both the quotient of the
  rates and its product with the input length are rounded to binary64.
\<close>

definition computed_len :: "nat \<Rightarrow> nat \<Rightarrow> nat \<Rightarrow> int" where
  "computed_len n srcRate dstRate =
     max 1 \<lfloor>RN (of_nat n * RN (of_nat dstRate / of_nat srcRate))\<rfloor>"

text \<open>Concrete sessions, managers, handlers and frames, used to instantiate the theorems.\<close>

definition demo_session :: StreamingSession where
  "demo_session =
     \<lparr>sessionId = ''s1'', dataChunks = [[1, 2, 3]], startTime = 1000, totalBytes = 3,
      header = None, extra = Map.empty\<rparr>"

definition quiet_callbacks :: SessionCallbacks where
  "quiet_callbacks =
     \<lparr>onCreate = Some (\<lambda>s. Returns), onEnd = Some (\<lambda>s. Returns),
      onLimitExceeded = Some (\<lambda>s r. Returns), onIdle = None\<rparr>"

definition throwing_callbacks :: SessionCallbacks where
  "throwing_callbacks =
     \<lparr>onCreate = Some (\<lambda>s. Throws), onEnd = None, onLimitExceeded = None, onIdle = None\<rparr>"

definition small_config :: SessionConfig where
  "small_config = \<lparr>maxBytes = 4, maxDurationMs = 60000, maxChunks = 3, idleTimeoutMs = 5000\<rparr>"

definition demo_manager :: SessionManager where
  "demo_manager =
     \<lparr>sessions = [''s1'' \<mapsto> demo_session], lastActivity = [''s1'' \<mapsto> 1000],
      config = small_config, callbacks = quiet_callbacks\<rparr>"

definition throwing_manager :: SessionManager where
  "throwing_manager = newSessionManager defaultConfig throwing_callbacks"

definition demo_header_frame :: bytes where
  "demo_header_frame = [0x50, 0x43, 0x4D, 0x31, 0x80, 0x3E, 0, 0, 1, 16, 0x40, 1, 0, 0, 0, 0]"

definition demo_header :: PcmHeader where
  "demo_header = \<lparr>magic = ''PCM1'', sample_rate = 16000, channels = 1, bits = 16,
                frame_samps = 320, reserved = 0\<rparr>"

definition demo_handlers :: WebSocketHandlers where
  "demo_handlers = \<lparr>onMessage = Some (\<lambda>sid msg. Returns)\<rparr>"

definition end_rejecting_handlers :: WebSocketHandlers where
  "end_rejecting_handlers =
     \<lparr>onMessage = Some (\<lambda>sid msg. case msg of MsgEnd \<Rightarrow> Rejects | _ \<Rightarrow> Returns)\<rparr>"

definition demo_conn :: SessionInfo where
  "demo_conn = \<lparr>conn_sessionId = ''c1'', conn_header = None, isAlive = True\<rparr>"

section \<open>Properties of the envelope codec\<close>

lemma fromCharCode_PCM1: "fromCharCode [80, 67, 77, 49] = ''PCM1''"
  by code_simp

lemma charCodes_PCM1: "charCodes ''PCM1'' = [80, 67, 77, 49]"
  by (simp add: charCodes_def)

lemma byte_of_unat_mod: "word_of_nat (unat (a::byte) mod 256) = a"
  using unsigned_less[of a, where ?'a=nat] by simp

lemma charCodes_fromCharCode: "charCodes (fromCharCode bs) = bs"
  by (induction bs) (simp_all add: fromCharCode_def charCodes_def byte_of_unat_mod)

lemma fromCharCode_eq_PCM1: "fromCharCode bs = ''PCM1'' \<longleftrightarrow> bs = [80, 67, 77, 49]"
  using charCodes_fromCharCode[of bs] fromCharCode_PCM1 charCodes_PCM1 by auto

lemma le16_join:
  assumes "0 \<le> v" "v < 2 ^ 16"
  shows "uint (word_of_int v :: byte) + uint (word_of_int (v div 2 ^ 8) :: byte) * 2 ^ 8 = v"
proof -
  have "v div 256 < 256" using assms by simp
  moreover have "0 \<le> v div 256" using assms by simp
  ultimately have "v div 256 mod 256 = v div 256" by simp
  then show ?thesis by (simp add: uint_word_of_int)
qed

lemma le32_join:
  assumes "0 \<le> v" "v < 2 ^ 32"
  shows "uint (word_of_int v :: byte) + uint (word_of_int (v div 2 ^ 8) :: byte) * 2 ^ 8
       + uint (word_of_int (v div 2 ^ 16) :: byte) * 2 ^ 16
       + uint (word_of_int (v div 2 ^ 24) :: byte) * 2 ^ 24 = v"
proof -
  define q1 where "q1 = v div 256"
  define q2 where "q2 = q1 div 256"
  define q3 where "q3 = q2 div 256"
  have a: "v mod 256 + 256 * q1 = v" unfolding q1_def by simp
  have b: "q1 mod 256 + 256 * q2 = q1" unfolding q2_def by simp
  have c: "q2 mod 256 + 256 * q3 = q2" unfolding q3_def by simp
  have d1: "v div 65536 = q2" unfolding q2_def q1_def by (simp add: div_mult2_eq[symmetric])
  have d2: "v div 16777216 = q3" unfolding q3_def q2_def q1_def
    by (simp add: div_mult2_eq[symmetric])
  have "q3 < 256" "0 \<le> q3" using assms unfolding d2[symmetric] by simp_all
  then have e: "q3 mod 256 = q3" by simp
  have "uint (word_of_int v :: byte) + uint (word_of_int (v div 2 ^ 8) :: byte) * 2 ^ 8
       + uint (word_of_int (v div 2 ^ 16) :: byte) * 2 ^ 16
       + uint (word_of_int (v div 2 ^ 24) :: byte) * 2 ^ 24 =
       v mod 256 + 256 * (q1 mod 256) + 65536 * (q2 mod 256) + 16777216 * q3"
    by (simp add: uint_word_of_int d1 d2 e q1_def[symmetric])
  also have "\<dots> = v" using a b c by linarith
  finally show ?thesis .
qed

lemma u8_join: "0 \<le> v \<Longrightarrow> v < 2 ^ 8 \<Longrightarrow> uint (word_of_int v :: byte) = v"
  by (simp add: uint_word_of_int)

lemma replicate16: "replicate 16 x = [x,x,x,x,x,x,x,x,x,x,x,x,x,x,x,x]"
  by (simp add: numeral_eq_Suc)

lemma createPcmHeader_bytes:
  assumes "0 \<le> sr" "sr < 2 ^ 32" "0 \<le> ch" "ch < 2 ^ 8" "0 \<le> b" "b < 2 ^ 8"
    "0 \<le> fs" "fs < 2 ^ 16"
  shows "createPcmHeader sr ch b fs =
     Inr [0x50, 0x43, 0x4D, 0x31,
          word_of_int sr, word_of_int (sr div 2 ^ 8), word_of_int (sr div 2 ^ 16),
          word_of_int (sr div 2 ^ 24),
          word_of_int ch, word_of_int b,
          word_of_int fs, word_of_int (fs div 2 ^ 8), 0, 0, 0, 0]"
  using assms
  by (simp add: createPcmHeader_def and_then_def write_str_def splice_def charCodes_PCM1
      replicate16 writeUInt32LE_def writeUInt8_def writeUInt16LE_def)

lemma len16_cases:
  assumes "16 \<le> length (buf :: 'a list)"
  obtains b0 b1 b2 b3 b4 b5 b6 b7 b8 b9 b10 b11 b12 b13 b14 b15 rest
  where "buf = b0 # b1 # b2 # b3 # b4 # b5 # b6 # b7 # b8 # b9 # b10 # b11 # b12 # b13
               # b14 # b15 # rest"
proof -
  have "Suc (Suc (Suc (Suc (Suc (Suc (Suc (Suc (Suc (Suc (Suc (Suc (Suc (Suc (Suc (Suc 0)))))))))))))))
        \<le> length buf"
    using assms by simp
  then show ?thesis
    unfolding Suc_le_length_iff using that by blast
qed

lemma parse_decomposed:
  "parsePcmHeader (b0 # b1 # b2 # b3 # b4 # b5 # b6 # b7 # b8 # b9 # b10 # b11 # b12 # b13
               # b14 # b15 # rest) =
   (if [b0, b1, b2, b3] \<noteq> [80, 67, 77, 49] then Inr None
    else Inr (Some \<lparr>magic = ''PCM1'', sample_rate = le_value [b4, b5, b6, b7],
            channels = le_value [b8], bits = le_value [b9],
            frame_samps = le_value [b10, b11], reserved = le_value [b12, b13]\<rparr>))"
  unfolding parsePcmHeader_def read_magic_def read_fields_def getUint8_def getUint16_def
    getUint32_def
  by (simp add: fromCharCode_eq_PCM1)

text \<open>
  Claim C5. For every input buffer, \<open>parsePcmHeader\<close> returns the explicit failure
  \<open>null\<close> exactly when the buffer is shorter than 16 bytes or its first four bytes
  are not \<open>PCM1\<close>; in every other case it returns a header all of whose fields are
  the little-endian values of the bytes at their offsets. It never throws.
\<close>

theorem parsePcmHeader_total:
  "parsePcmHeader buf =
     (if length buf < 16 \<or> take 4 buf \<noteq> [0x50, 0x43, 0x4D, 0x31] then Inr None
      else Inr (Some \<lparr>magic = ''PCM1'',
                      sample_rate = le_value (take 4 (drop 4 buf)),
                      channels = le_value (take 1 (drop 8 buf)),
                      bits = le_value (take 1 (drop 9 buf)),
                      frame_samps = le_value (take 2 (drop 10 buf)),
                      reserved = le_value (take 2 (drop 12 buf))\<rparr>))"
proof (cases "length buf < 16")
  case True
  then show ?thesis by (simp add: parsePcmHeader_def)
next
  case False
  then have "16 \<le> length buf" by simp
  then obtain b0 b1 b2 b3 b4 b5 b6 b7 b8 b9 b10 b11 b12 b13 b14 b15 rest
    where buf: "buf = b0 # b1 # b2 # b3 # b4 # b5 # b6 # b7 # b8 # b9 # b10 # b11 # b12 # b13
               # b14 # b15 # rest"
    by (rule len16_cases)
  show ?thesis unfolding buf parse_decomposed by simp
qed

theorem parsePcmHeader_total_witness:
  "parsePcmHeader [0x50, 0x43, 0x4D, 0x31, 0x80, 0x3E, 0, 0, 1, 16, 0x40, 1, 0, 0, 0, 0] =
     Inr (Some \<lparr>magic = ''PCM1'', sample_rate = 16000, channels = 1, bits = 16,
                frame_samps = 320, reserved = 0\<rparr>)
   \<and> parsePcmHeader [0x50, 0x43, 0x4D] = Inr None
   \<and> parsePcmHeader [0x58, 0x43, 0x4D, 0x31, 0x80, 0x3E, 0, 0, 1, 16, 0x40, 1, 0, 0, 0, 0]
       = Inr None"
  using parsePcmHeader_total[of "[0x50, 0x43, 0x4D, 0x31, 0x80, 0x3E, 0, 0, 1, 16, 0x40, 1, 0, 0, 0, 0]"]
    parsePcmHeader_total[of "[0x50, 0x43, 0x4D]"]
    parsePcmHeader_total[of "[0x58, 0x43, 0x4D, 0x31, 0x80, 0x3E, 0, 0, 1, 16, 0x40, 1, 0, 0, 0, 0]"]
  by simp

text \<open>
  Claim C3. For all field values within the widths u32, u8, u8 and u16,
  \<open>createPcmHeader\<close> yields a 16-byte buffer that \<open>parsePcmHeader\<close> decodes to the
  magic \<open>PCM1\<close>, the same four field values and reserved = 0. The witness is the
  scenario (16000, 1, 16, 320).
\<close>

theorem createPcmHeader_roundtrip:
  assumes "0 \<le> sr" "sr < 2 ^ 32" "0 \<le> ch" "ch < 2 ^ 8" "0 \<le> b" "b < 2 ^ 8"
    "0 \<le> fs" "fs < 2 ^ 16"
  shows "\<exists>buf. createPcmHeader sr ch b fs = Inr buf \<and> length buf = 16 \<and>
           parsePcmHeader buf =
             Inr (Some \<lparr>magic = ''PCM1'', sample_rate = sr, channels = ch, bits = b,
                        frame_samps = fs, reserved = 0\<rparr>)"
proof -
  have sr: "le_value [word_of_int sr, word_of_int (sr div 2 ^ 8), word_of_int (sr div 2 ^ 16),
          word_of_int (sr div 2 ^ 24) :: byte] = sr"
    using le32_join[OF assms(1,2)] by simp
  have fs: "le_value [word_of_int fs, word_of_int (fs div 2 ^ 8) :: byte] = fs"
    using le16_join[OF assms(7,8)] by simp
  have ch: "le_value [word_of_int ch :: byte] = ch" using u8_join[OF assms(3,4)] by simp
  have b: "le_value [word_of_int b :: byte] = b" using u8_join[OF assms(5,6)] by simp
  have "parsePcmHeader [0x50, 0x43, 0x4D, 0x31,
          word_of_int sr, word_of_int (sr div 2 ^ 8), word_of_int (sr div 2 ^ 16),
          word_of_int (sr div 2 ^ 24),
          word_of_int ch, word_of_int b,
          word_of_int fs, word_of_int (fs div 2 ^ 8), 0, 0, 0, 0] =
        Inr (Some \<lparr>magic = ''PCM1'', sample_rate = sr, channels = ch, bits = b,
                        frame_samps = fs, reserved = 0\<rparr>)"
    unfolding parse_decomposed sr fs ch b by simp
  then show ?thesis
    unfolding createPcmHeader_bytes[OF assms] by simp
qed

theorem createPcmHeader_roundtrip_witness:
  "\<exists>buf. createPcmHeader 16000 1 16 320 = Inr buf \<and> length buf = 16 \<and>
           parsePcmHeader buf =
             Inr (Some \<lparr>magic = ''PCM1'', sample_rate = 16000, channels = 1, bits = 16,
                        frame_samps = 320, reserved = 0\<rparr>)"
  using createPcmHeader_roundtrip[of 16000 1 16 320] by simp

section \<open>Properties of the session store\<close>

text \<open>
  Claim C1. For an existing session and any chunk, \<open>addChunk\<close> checks the byte quota
  (\<open>totalBytes + len > maxBytes\<close>), then the duration quota (\<open>now - startTime >
  maxDurationMs\<close>), then the chunk-count quota (\<open>len(chunks) \<ge> maxChunks\<close>), each on the
  state before the chunk. At the first violated one it warns, calls \<open>onLimitExceeded\<close>
  (if installed) with that quota's reason and returns false, the manager unchanged;
  if none is violated it appends the chunk, adds its length to \<open>totalBytes\<close>, stores
  the new last-activity time and returns true. The notification is taken to return
  normally: \<open>addChunk\<close> calls it unguarded.
\<close>

theorem addChunk_quota_order:
  assumes "sessions m sid = Some s"
    and "\<forall>f r. onLimitExceeded (callbacks m) = Some f \<longrightarrow> f s r \<noteq> Throws"
  shows "addChunk m sid chunk t1 t2 =
     (let notified = (\<lambda>reason. ConsoleWarn reason #
            (case onLimitExceeded (callbacks m) of None \<Rightarrow> []
             | Some f \<Rightarrow> [Called_onLimitExceeded s reason]))
      in if totalBytes s + int (length chunk) > int (maxBytes (config m))
         then (Inr False, m, notified ''max_bytes'')
         else if t1 - startTime s > int (maxDurationMs (config m))
         then (Inr False, m, notified ''max_duration'')
         else if length (dataChunks s) \<ge> maxChunks (config m)
         then (Inr False, m, notified ''max_chunks'')
         else (Inr True,
               m\<lparr>sessions := (sessions m)(sid \<mapsto>
                     s\<lparr>dataChunks := dataChunks s @ [chunk],
                       totalBytes := totalBytes s + int (length chunk)\<rparr>),
                 lastActivity := (lastActivity m)(sid \<mapsto> t2)\<rparr>,
               []))"
  using assms
  by (auto simp: addChunk_def limit_exceeded_def Let_def split: option.splits)

theorem addChunk_quota_order_witness:
  "sessions demo_manager ''s1'' = Some demo_session
   \<and> onLimitExceeded (callbacks demo_manager) = Some (\<lambda>s r. Returns)
   \<and> addChunk demo_manager ''s1'' [7, 8] 2000 2001 =
       (Inr False, demo_manager,
        [ConsoleWarn ''max_bytes'', Called_onLimitExceeded demo_session ''max_bytes''])
   \<and> addChunk demo_manager ''s1'' [7, 8] 70000 70001 =
       (Inr False, demo_manager,
        [ConsoleWarn ''max_bytes'', Called_onLimitExceeded demo_session ''max_bytes''])
   \<and> addChunk demo_manager ''s1'' [7] 70000 70001 =
       (Inr False, demo_manager,
        [ConsoleWarn ''max_duration'', Called_onLimitExceeded demo_session ''max_duration''])
   \<and> addChunk demo_manager ''s1'' [7] 2000 2001 =
       (Inr True,
        demo_manager\<lparr>sessions := [''s1'' \<mapsto>
            demo_session\<lparr>dataChunks := [[1, 2, 3], [7]], totalBytes := 4\<rparr>],
          lastActivity := [''s1'' \<mapsto> 2001]\<rparr>, [])"
proof -
  have h1: "sessions demo_manager ''s1'' = Some demo_session"
    by (simp add: demo_manager_def)
  have h2: "\<forall>f r. onLimitExceeded (callbacks demo_manager) = Some f \<longrightarrow> f demo_session r \<noteq> Throws"
    by (auto simp add: demo_manager_def quiet_callbacks_def)
  show ?thesis
    using h1 addChunk_quota_order[OF h1 h2, of "[7, 8]" 2000 2001]
      addChunk_quota_order[OF h1 h2, of "[7, 8]" 70000 70001]
      addChunk_quota_order[OF h1 h2, of "[7]" 70000 70001]
      addChunk_quota_order[OF h1 h2, of "[7]" 2000 2001]
    by (simp add: demo_manager_def demo_session_def small_config_def quiet_callbacks_def)
qed

lemma limit_exceeded_state: "fst (snd (limit_exceeded m s reason)) = m"
  by (simp add: limit_exceeded_def split: option.splits)

lemma limit_exceeded_result: "fst (limit_exceeded m s reason) \<noteq> Inr True"
  by (simp add: limit_exceeded_def split: option.splits)

lemma addChunk_config: "config (fst (snd (addChunk m sid chunk t1 t2))) = config m"
  by (simp add: addChunk_def Let_def limit_exceeded_state split: option.splits)

lemma addChunk_other:
  "sid' \<noteq> sid \<Longrightarrow> sessions (fst (snd (addChunk m sid' chunk t1 t2))) sid = sessions m sid"
  by (simp add: addChunk_def Let_def limit_exceeded_state split: option.splits)

lemma addChunk_step:
  assumes "sessions m sid = Some s" "accounted (config m) s"
  shows "\<exists>s'. sessions (fst (snd (addChunk m sid chunk t1 t2))) sid = Some s'
           \<and> accounted (config m) s'
           \<and> dataChunks s' = dataChunks s
                @ (if fst (addChunk m sid chunk t1 t2) = Inr True then [chunk] else [])"
  using assms
  by (simp add: addChunk_def Let_def limit_exceeded_state limit_exceeded_result accounted_def
      split: option.splits)

lemma addChunks_accounted:
  assumes "sessions m sid = Some s" "accounted (config m) s"
  shows "\<exists>s'. sessions (addChunks m calls) sid = Some s'
           \<and> accounted (config m) s'
           \<and> dataChunks s' = dataChunks s @ admitted m sid calls"
  using assms
proof (induction calls arbitrary: m s)
  case Nil
  then show ?case by simp
next
  case (Cons call calls)
  obtain sid' chunk t1 t2 where call: "call = (sid', chunk, t1, t2)"
    by (cases call) auto
  let ?m' = "fst (snd (addChunk m sid' chunk t1 t2))"
  have cfg: "config ?m' = config m" by (rule addChunk_config)
  show ?case
  proof (cases "sid' = sid")
    case True
    from addChunk_step[OF Cons.prems, of chunk t1 t2]
    obtain s1 where s1: "sessions (fst (snd (addChunk m sid chunk t1 t2))) sid = Some s1"
      "accounted (config m) s1"
      "dataChunks s1 = dataChunks s
         @ (if fst (addChunk m sid chunk t1 t2) = Inr True then [chunk] else [])"
      by blast
    from Cons.IH[of ?m' s1] s1 cfg True
    obtain s' where "sessions (addChunks ?m' calls) sid = Some s'"
      "accounted (config m) s'" "dataChunks s' = dataChunks s1 @ admitted ?m' sid calls"
      by auto
    with s1 True call show ?thesis by simp
  next
    case False
    then have "sessions ?m' sid = Some s" using Cons.prems(1) by (simp add: addChunk_other)
    from Cons.IH[OF this] Cons.prems(2) cfg
    obtain s' where "sessions (addChunks ?m' calls) sid = Some s'"
      "accounted (config m) s'" "dataChunks s' = dataChunks s @ admitted ?m' sid calls"
      by auto
    with False call show ?thesis by simp
  qed
qed

lemma createSession_state:
  "fst (snd (createSession m sid hdr t1 t2)) =
     m\<lparr>sessions := (sessions m)(sid \<mapsto>
          \<lparr>sessionId = sid, dataChunks = [], startTime = t1, totalBytes = 0,
           header = hdr, extra = Map.empty\<rparr>),
       lastActivity := (lastActivity m)(sid \<mapsto> t2)\<rparr>"
  by (simp add: createSession_def Let_def split: option.splits outcome.splits)

text \<open>
  Claim C2. After \<open>createSession\<close> and any run of \<open>addChunk\<close> calls (every prefix
  \<open>take n calls\<close> of any call list), the session exists, its \<open>totalBytes\<close> is the sum
  of the lengths of its chunks and at most \<open>maxBytes\<close>, and its chunks are exactly the
  admitted ones in call order.
\<close>

theorem addChunk_invariant:
  "\<exists>s. sessions (addChunks (fst (snd (createSession m sid hdr t1 t2))) (take n calls)) sid
         = Some s
       \<and> totalBytes s = int (sum_list (map length (dataChunks s)))
       \<and> totalBytes s \<le> int (maxBytes (config m))
       \<and> dataChunks s = admitted (fst (snd (createSession m sid hdr t1 t2))) sid (take n calls)"
proof -
  let ?m0 = "fst (snd (createSession m sid hdr t1 t2))"
  let ?s0 = "\<lparr>sessionId = sid, dataChunks = [], startTime = t1, totalBytes = 0,
           header = hdr, extra = Map.empty\<rparr>"
  have a: "sessions ?m0 sid = Some ?s0" by (simp add: createSession_state)
  have c: "config ?m0 = config m" by (simp add: createSession_state)
  have b: "accounted (config ?m0) ?s0" by (simp add: accounted_def)
  from addChunks_accounted[OF a b, of "take n calls"] show ?thesis
    unfolding accounted_def c by simp
qed

text \<open>
  Claim C6. For an existing session whose end notification (if installed) returns
  normally, the first \<open>endSession\<close> returns the session, removes it and calls the
  notification once; the second returns absent, notifies nothing and changes nothing;
  \<open>getStats\<close> for the id is absent after the first call, hence also after the second,
  which leaves the manager as it was.
\<close>

theorem endSession_twice:
  assumes "sessions m sid = Some s"
    and "\<forall>f. onEnd (callbacks m) = Some f \<longrightarrow> f s = Returns"
  shows "\<exists>m1. endSession m sid =
             (Inr (Some s), m1,
              (case onEnd (callbacks m) of None \<Rightarrow> [] | Some f \<Rightarrow> [Called_onEnd s])
                @ [ConsoleLog ''Session ended''])
           \<and> sessions m1 sid = None \<and> lastActivity m1 sid = None
           \<and> endSession m1 sid = (Inr None, m1, [])
           \<and> getStats m1 sid now = None"
  using assms
  by (auto simp: endSession_def getStats_def Let_def split: option.splits)

theorem endSession_twice_witness:
  "sessions demo_manager ''s1'' = Some demo_session
   \<and> onEnd (callbacks demo_manager) = Some (\<lambda>s. Returns)
   \<and> (\<exists>m1. endSession demo_manager ''s1'' =
             (Inr (Some demo_session), m1,
              [Called_onEnd demo_session, ConsoleLog ''Session ended''])
           \<and> sessions m1 ''s1'' = None \<and> lastActivity m1 ''s1'' = None
           \<and> endSession m1 ''s1'' = (Inr None, m1, [])
           \<and> getStats m1 ''s1'' 3000 = None)"
proof -
  have h1: "sessions demo_manager ''s1'' = Some demo_session"
    by (simp add: demo_manager_def)
  have h2: "\<forall>f. onEnd (callbacks demo_manager) = Some f \<longrightarrow> f demo_session = Returns"
    by (auto simp add: demo_manager_def quiet_callbacks_def)
  have "onEnd (callbacks demo_manager) = Some (\<lambda>s. Returns)"
    by (simp add: demo_manager_def quiet_callbacks_def)
  then show ?thesis
    using h1 endSession_twice[OF h1 h2, of 3000] by simp
qed

text \<open>
  Claim C9, at the failing input: with an \<open>onCreate\<close> callback that throws
  synchronously, \<open>createSession\<close> has inserted the session, but the exception reaches
  its caller; no session is returned and nothing is logged.
\<close>

theorem createSession_sync_throw_propagates:
  "createSession throwing_manager ''s1'' None 1000 1000 =
     (Inl CallbackError,
      throwing_manager\<lparr>sessions := [''s1'' \<mapsto>
          \<lparr>sessionId = ''s1'', dataChunks = [], startTime = 1000, totalBytes = 0,
           header = None, extra = Map.empty\<rparr>],
        lastActivity := [''s1'' \<mapsto> 1000]\<rparr>,
      [Called_onCreate \<lparr>sessionId = ''s1'', dataChunks = [], startTime = 1000,
          totalBytes = 0, header = None, extra = Map.empty\<rparr>])"
  by (simp add: createSession_def throwing_manager_def newSessionManager_def
      throwing_callbacks_def Let_def)

text \<open>
  Claim C8 fails for the key \<open>totalBytes\<close>: \<open>setSessionData\<close> replaces the byte
  counter of the session, and a chunk that \<open>addChunk\<close> rejected before (byte quota)
  is admitted afterwards.
\<close>

theorem setSessionData_overwrites_totalBytes:
  "setSessionData demo_manager ''s1'' ''totalBytes'' (JNum 0) =
     Some (True, demo_manager\<lparr>sessions := [''s1'' \<mapsto> demo_session\<lparr>totalBytes := 0\<rparr>]\<rparr>)
   \<and> totalBytes demo_session = 3
   \<and> fst (addChunk demo_manager ''s1'' [7, 8] 2000 2001) = Inr False
   \<and> fst (addChunk (demo_manager\<lparr>sessions := [''s1'' \<mapsto> demo_session\<lparr>totalBytes := 0\<rparr>]\<rparr>)
           ''s1'' [7, 8] 2000 2001) = Inr True"
  by (simp add: setSessionData_def assign_prop_def demo_manager_def demo_session_def
      addChunk_def limit_exceeded_def small_config_def quiet_callbacks_def Let_def)

lemma assign_prop_extra:
  assumes "key \<notin> {''sessionId'', ''dataChunks'', ''startTime'', ''totalBytes'', ''header''}"
  shows "assign_prop s key v =
     Some (s\<lparr>extra := (if key = ''__proto__'' then extra s else (extra s)(key \<mapsto> v))\<rparr>)"
  using assms by (simp add: assign_prop_def)

lemma addChunk_extra:
  assumes "sessions m sid = Some s"
    and "\<forall>f r x. onLimitExceeded (callbacks m) = Some f \<longrightarrow> f x r \<noteq> Throws"
  shows "(let m' = m\<lparr>sessions := (sessions m)(sid \<mapsto> s\<lparr>extra := e\<rparr>)\<rparr>;
                   (r, m1, evs) = addChunk m sid chunk t1 t2;
                   (r', m1', evs') = addChunk m' sid chunk t1 t2
               in r' = r \<and> lastActivity m1' = lastActivity m1
                  \<and> (\<exists>s1. sessions m1 sid = Some s1
                         \<and> sessions m1' sid = Some (s1\<lparr>extra := e\<rparr>)))"
  using assms
  by (simp add: addChunk_def limit_exceeded_def Let_def split: option.splits)

text \<open>
  Claim C8, amended. For an existing session and every key other than the five
  declared property names \<open>sessionId\<close>, \<open>dataChunks\<close>, \<open>startTime\<close>, \<open>totalBytes\<close> and
  \<open>header\<close>, \<open>setSessionData\<close> returns true and changes nothing but the extra
  properties of that session: chunks, byte counter, header, start time and the
  last-activity table stay as they are, and a following \<open>addChunk\<close> returns the same
  result and has the same effect as without the call (the limit notification taken to
  return normally).
\<close>

theorem setSessionData_frame:
  assumes "sessions m sid = Some s"
    and "key \<notin> {''sessionId'', ''dataChunks'', ''startTime'', ''totalBytes'', ''header''}"
    and "\<forall>f r x. onLimitExceeded (callbacks m) = Some f \<longrightarrow> f x r \<noteq> Throws"
  shows "\<exists>e. setSessionData m sid key v
             = Some (True, m\<lparr>sessions := (sessions m)(sid \<mapsto> s\<lparr>extra := e\<rparr>)\<rparr>)
           \<and> (let m' = m\<lparr>sessions := (sessions m)(sid \<mapsto> s\<lparr>extra := e\<rparr>)\<rparr>;
                   (r, m1, evs) = addChunk m sid chunk t1 t2;
                   (r', m1', evs') = addChunk m' sid chunk t1 t2
               in r' = r \<and> lastActivity m1' = lastActivity m1
                  \<and> (\<exists>s1. sessions m1 sid = Some s1
                         \<and> sessions m1' sid = Some (s1\<lparr>extra := e\<rparr>)))"
proof -
  let ?e = "if key = ''__proto__'' then extra s else (extra s)(key \<mapsto> v)"
  have 1: "setSessionData m sid key v
             = Some (True, m\<lparr>sessions := (sessions m)(sid \<mapsto> s\<lparr>extra := ?e\<rparr>)\<rparr>)"
    using assms(1) assign_prop_extra[OF assms(2), of s v] by (simp add: setSessionData_def)
  from 1 addChunk_extra[OF assms(1,3), of ?e chunk t1 t2] show ?thesis by blast
qed

theorem setSessionData_frame_witness:
  "sessions demo_manager ''s1'' = Some demo_session
   \<and> ''userId'' \<notin> {''sessionId'', ''dataChunks'', ''startTime'', ''totalBytes'', ''header''}
   \<and> onLimitExceeded (callbacks demo_manager) = Some (\<lambda>s r. Returns)
   \<and> (\<exists>e. setSessionData demo_manager ''s1'' ''userId'' (JStr ''u1'')
             = Some (True, demo_manager\<lparr>sessions := [''s1'' \<mapsto> demo_session\<lparr>extra := e\<rparr>]\<rparr>))"
proof -
  have h1: "sessions demo_manager ''s1'' = Some demo_session"
    by (simp add: demo_manager_def)
  have h2: "''userId'' \<notin> {''sessionId'', ''dataChunks'', ''startTime'', ''totalBytes'', ''header''}"
    by simp
  have h3: "\<forall>f r x. onLimitExceeded (callbacks demo_manager) = Some f \<longrightarrow> f x r \<noteq> Throws"
    by (auto simp add: demo_manager_def quiet_callbacks_def)
  have "sessions demo_manager = [''s1'' \<mapsto> demo_session]" by (simp add: demo_manager_def)
  then show ?thesis
    using h1 h2 setSessionData_frame[OF h1 h2 h3, of "JStr ''u1''" "[]" 0 0]
    by (auto simp add: demo_manager_def quiet_callbacks_def)
qed

section \<open>Properties of the protocol engine\<close>

lemma read_fields_Some:
  assumes "16 \<le> length data"
  shows "\<exists>hdr. read_fields data m = Some hdr"
proof -
  from assms obtain b0 b1 b2 b3 b4 b5 b6 b7 b8 b9 b10 b11 b12 b13 b14 b15 rest
    where "data = b0 # b1 # b2 # b3 # b4 # b5 # b6 # b7 # b8 # b9 # b10 # b11 # b12 # b13
               # b14 # b15 # rest"
    by (rule len16_cases)
  then show ?thesis
    by (simp add: read_fields_def getUint8_def getUint16_def getUint32_def)
qed

lemma demo_read_fields: "read_fields demo_header_frame ''PCM1'' = Some demo_header"
  by (simp add: read_fields_def getUint8_def getUint16_def getUint32_def
      demo_header_frame_def demo_header_def)

lemma deliver_header:
  assumes "onMessage h = Some f" "f (conn_sessionId c) (MsgHeader data hdr) = Returns"
    "conn_header c = None" "16 \<le> length data" "take 4 data = PCM1_bytes"
    "read_fields data ''PCM1'' = Some hdr"
  shows "step h (c, []) (Deliver (BinaryFrame data))
         = ((c\<lparr>conn_header := Some hdr\<rparr>, [Suspended Returns InHeader]),
            [Emitted (MsgHeader data hdr)])"
  using assms by (simp add: handleMessage_def await_handler_def)

lemma deliver_end:
  assumes "onMessage h = Some f" "f (conn_sessionId c) MsgEnd = Returns"
  shows "step h (c, pending) (Deliver (BinaryFrame END_bytes))
         = ((c, pending @ [Suspended Returns InEnd]), [Emitted MsgEnd])"
  using assms by (simp add: handleMessage_def await_handler_def END_bytes_def PCM1_bytes_def)

lemma deliver_audio:
  assumes "onMessage h = Some f" "f (conn_sessionId c) (MsgAudio data) = Returns"
    "conn_header c = Some hdr" "data \<noteq> END_bytes"
  shows "step h (c, pending) (Deliver (BinaryFrame data))
         = ((c, pending @ [Suspended Returns InAudio]), [Emitted (MsgAudio data)])"
  using assms by (simp add: handleMessage_def await_handler_def)

lemma deliver_drop:
  assumes "conn_header c = None" "data \<noteq> END_bytes"
    "\<not> (16 \<le> length data \<and> take 4 data = PCM1_bytes)"
  shows "step h (c, pending) (Deliver (BinaryFrame data))
         = ((c, pending), [Warned ''Received data before PCM header''])"
  using assms by (auto simp add: handleMessage_def)

lemma resume_first:
  "step h (c, k # pending) (Resume 0) =
     (case resume c k of (c', evs) \<Rightarrow> ((c', pending), evs))"
  by simp

text \<open>
  When every call of \<open>handleMessage\<close> has run to its end before the next frame is
  dispatched, and the installed handler returns normally, the scenario of claim C4
  comes out as the claim says: header, audio, audio and end are emitted, the last
  frame is dropped with a warning, and the connection is back in \<open>AWAITING_HEADER\<close>.
\<close>

lemma scenario_one_frame_at_a_time:
  assumes handler: "onMessage h = Some f" "\<forall>msg. f (conn_sessionId c) msg = Returns"
    and start: "conn_header c = None"
    and hf: "16 \<le> length hf" "take 4 hf = PCM1_bytes"
    and audio: "a1 \<noteq> END_bytes" "a2 \<noteq> END_bytes" "a3 \<noteq> END_bytes"
      "\<not> (16 \<le> length a3 \<and> take 4 a3 = PCM1_bytes)"
  shows "\<exists>hdr. read_fields hf ''PCM1'' = Some hdr
          \<and> run h (c, [])
               [Deliver (BinaryFrame hf), Resume 0, Deliver (BinaryFrame a1), Resume 0,
                Deliver (BinaryFrame a2), Resume 0, Deliver (BinaryFrame END_bytes), Resume 0,
                Deliver (BinaryFrame a3)]
             = ((c, []),
                [Emitted (MsgHeader hf hdr), Emitted (MsgAudio a1), Emitted (MsgAudio a2),
                 Emitted MsgEnd, Warned ''Received data before PCM header''])"
proof -
  from read_fields_Some[OF hf(1)] obtain hdr where hdr: "read_fields hf ''PCM1'' = Some hdr"
    by blast
  let ?c1 = "c\<lparr>conn_header := Some hdr\<rparr>"
  have f: "\<And>c' msg. conn_sessionId c' = conn_sessionId c \<Longrightarrow> f (conn_sessionId c') msg = Returns"
    using handler(2) by simp
  have s1: "step h (c, []) (Deliver (BinaryFrame hf))
      = ((?c1, [Suspended Returns InHeader]), [Emitted (MsgHeader hf hdr)])"
    by (rule deliver_header[OF handler(1) _ start hf hdr]) (simp add: f)
  have r1: "step h (?c1, [Suspended Returns InHeader]) (Resume 0) = ((?c1, []), [])"
    by (simp add: resume_def)
  have s2: "step h (?c1, []) (Deliver (BinaryFrame a1))
      = ((?c1, [Suspended Returns InAudio]), [Emitted (MsgAudio a1)])"
    using deliver_audio[OF handler(1) _ _ audio(1), of ?c1 hdr "[]"] by (simp add: f)
  have s3: "step h (?c1, []) (Deliver (BinaryFrame a2))
      = ((?c1, [Suspended Returns InAudio]), [Emitted (MsgAudio a2)])"
    using deliver_audio[OF handler(1) _ _ audio(2), of ?c1 hdr "[]"] by (simp add: f)
  have r2: "step h (?c1, [Suspended Returns InAudio]) (Resume 0) = ((?c1, []), [])"
    by (simp add: resume_def)
  have s4: "step h (?c1, []) (Deliver (BinaryFrame END_bytes))
      = ((?c1, [Suspended Returns InEnd]), [Emitted MsgEnd])"
    using deliver_end[OF handler(1), of ?c1 "[]"] by (simp add: f)
  have c: "?c1\<lparr>conn_header := None\<rparr> = c" using start by simp
  have r4: "step h (?c1, [Suspended Returns InEnd]) (Resume 0) = ((c, []), [])"
    by (simp add: resume_def c)
  have s5: "step h (c, []) (Deliver (BinaryFrame a3))
      = ((c, []), [Warned ''Received data before PCM header''])"
    by (rule deliver_drop[OF start audio(3,4)])
  have "run h (c, [])
               [Deliver (BinaryFrame hf), Resume 0, Deliver (BinaryFrame a1), Resume 0,
                Deliver (BinaryFrame a2), Resume 0, Deliver (BinaryFrame END_bytes), Resume 0,
                Deliver (BinaryFrame a3)]
             = ((c, []),
                [Emitted (MsgHeader hf hdr), Emitted (MsgAudio a1), Emitted (MsgAudio a2),
                 Emitted MsgEnd, Warned ''Received data before PCM header''])"
    by (simp only: run.simps s1 r1 s2 r2 s3 s4 r4 s5 prod.case append.simps)
  with hdr show ?thesis by blast
qed

text \<open>
  Claim C4, at the failing input. The five frames of the scenario are dispatched to a
  connection in \<open>AWAITING_HEADER\<close> whose handler returns normally. If the frame after
  the end frame is dispatched while the end frame's call is still suspended at its
  \<open>await\<close> (first: all five calls made in a row, as the listener makes them; second:
  only the end frame's call still suspended), the header has not been reset yet: the
  last frame is emitted as audio and no warning is given.
\<close>

theorem trailing_frame_emitted_as_audio:
  "run demo_handlers (demo_conn, [])
     [Deliver (BinaryFrame demo_header_frame), Deliver (BinaryFrame [1, 2]),
      Deliver (BinaryFrame [3, 4]), Deliver (BinaryFrame END_bytes),
      Deliver (BinaryFrame [5, 6])]
   = ((demo_conn\<lparr>conn_header := Some demo_header\<rparr>,
       [Suspended Returns InHeader, Suspended Returns InAudio, Suspended Returns InAudio,
        Suspended Returns InEnd, Suspended Returns InAudio]),
      [Emitted (MsgHeader demo_header_frame demo_header), Emitted (MsgAudio [1, 2]),
       Emitted (MsgAudio [3, 4]), Emitted MsgEnd, Emitted (MsgAudio [5, 6])])
   \<and> run demo_handlers (demo_conn, [])
     [Deliver (BinaryFrame demo_header_frame), Resume 0, Deliver (BinaryFrame [1, 2]),
      Resume 0, Deliver (BinaryFrame [3, 4]), Resume 0, Deliver (BinaryFrame END_bytes),
      Deliver (BinaryFrame [5, 6]), Resume 0, Resume 0]
   = ((demo_conn, []),
      [Emitted (MsgHeader demo_header_frame demo_header), Emitted (MsgAudio [1, 2]),
       Emitted (MsgAudio [3, 4]), Emitted MsgEnd, Emitted (MsgAudio [5, 6])])"
proof -
  have hf: "16 \<le> length demo_header_frame" "take 4 demo_header_frame = PCM1_bytes"
    by (simp_all add: demo_header_frame_def PCM1_bytes_def)
  have e: "[1, 2] \<noteq> END_bytes" "[3, 4] \<noteq> END_bytes" "[5, 6] \<noteq> END_bytes"
    by (simp_all add: END_bytes_def)
  have l: "length END_bytes = 4" by (simp add: END_bytes_def)
  have c: "demo_conn\<lparr>conn_header := None\<rparr> = demo_conn" by (simp add: demo_conn_def)
  have n: "conn_header demo_conn = None" by (simp add: demo_conn_def)
  show ?thesis
    using hf e
    by (simp add: handleMessage_def await_handler_def resume_def demo_handlers_def
        demo_read_fields l c n)
qed

text \<open>
  An end frame whose handler rejects leaves the connection in \<open>STREAMING\<close>: the reset
  stands after the \<open>await\<close>, inside the \<open>try\<close> block.
\<close>

lemma end_frame_handler_rejects:
  "run end_rejecting_handlers (demo_conn\<lparr>conn_header := Some demo_header\<rparr>, [])
     [Deliver (BinaryFrame END_bytes), Resume 0]
   = ((demo_conn\<lparr>conn_header := Some demo_header\<rparr>, []),
      [Emitted MsgEnd, LoggedError ''Error processing message'', SentError])"
  by (simp add: handleMessage_def await_handler_def resume_def end_rejecting_handlers_def
      END_bytes_def PCM1_bytes_def on_failure_def)

section \<open>Rounding to binary64\<close>

lemma pos_rat_quotient:
  assumes "0 < (x::rat)"
  obtains a b where "quotient_of x = (a, b)" "0 < a" "0 < b" "x = of_int a / of_int b"
proof -
  obtain a b where q: "quotient_of x = (a, b)" by (cases "quotient_of x")
  have b: "0 < b" using q by (rule quotient_of_denom_pos)
  have x: "x = of_int a / of_int b" using q by (rule quotient_of_div)
  have "0 < a" using assms b unfolding x by (simp add: zero_less_divide_iff)
  with q b x show ?thesis using that by blast
qed

lemma bitlen_lower: "0 < a \<Longrightarrow> (2::rat) powi (bitlen a - 1) \<le> of_int a"
proof -
  assume a: "0 < a"
  then have "1 \<le> bitlen a" by (auto simp: bitlen_alt_def)
  moreover have "(2::int) ^ nat (bitlen a - 1) \<le> a" using bitlen_bounds[OF a] by simp
  then have "(of_int ((2::int) ^ nat (bitlen a - 1)) :: rat) \<le> of_int a"
    by (simp only: of_int_le_iff)
  ultimately show ?thesis by (simp add: power_int_def)
qed

lemma bitlen_upper: "0 < a \<Longrightarrow> of_int a < (2::rat) powi (bitlen a)"
proof -
  assume a: "0 < a"
  have "0 \<le> bitlen a" by (rule bitlen_nonneg)
  moreover have "a < (2::int) ^ nat (bitlen a)" using bitlen_bounds[OF a] by simp
  then have "(of_int a :: rat) < of_int ((2::int) ^ nat (bitlen a))"
    by (simp only: of_int_less_iff)
  ultimately show ?thesis by (simp add: power_int_def)
qed

lemma binexp_bounds:
  assumes "0 < x"
  shows "2 powi (binexp x) \<le> x" and "x < 2 powi (binexp x + 1)"
proof -
  from assms obtain a b where q: "quotient_of x = (a, b)" and a: "0 < a" and b: "0 < b"
    and x: "x = of_int a / of_int b" by (rule pos_rat_quotient)
  define k where "k = bitlen a - bitlen b"
  have e: "binexp x = (if 2 powi k \<le> x then k else k - 1)"
    by (simp add: binexp_def q k_def Let_def)
  have bpos: "(0::rat) < of_int b" using b by simp
  have lo: "(2::rat) powi (k - 1) < x"
  proof -
    have "(2::rat) powi (k - 1) = 2 powi (bitlen a - 1) / 2 powi (bitlen b)"
      unfolding k_def by (simp add: power_int_diff[symmetric] algebra_simps)
    also have "\<dots> \<le> of_int a / 2 powi (bitlen b)"
      using bitlen_lower[OF a] by (simp add: divide_right_mono)
    also have "\<dots> < of_int a / of_int b"
      using bitlen_upper[OF b] a bpos by (simp add: divide_strict_left_mono)
    finally show ?thesis unfolding x .
  qed
  have hi: "x < (2::rat) powi (k + 1)"
  proof -
    have "x < 2 powi (bitlen a) / of_int b"
      unfolding x using bitlen_upper[OF a] bpos by (simp add: divide_strict_right_mono)
    also have "\<dots> \<le> 2 powi (bitlen a) / 2 powi (bitlen b - 1)"
      using bitlen_lower[OF b] bpos by (intro divide_left_mono) (simp_all add: mult_pos_pos)
    also have "\<dots> = 2 powi (k + 1)"
      unfolding k_def by (simp add: power_int_diff[symmetric] algebra_simps)
    finally show ?thesis .
  qed
  show "2 powi (binexp x) \<le> x" using lo e by (auto simp: less_imp_le)
  show "x < 2 powi (binexp x + 1)"
  proof (cases "2 powi k \<le> x")
    case True then show ?thesis using hi e by simp
  next
    case False then show ?thesis using e by simp
  qed
qed

lemma round_even_err: "\<bar>of_int (round_even q) - q\<bar> \<le> 1 / 2"
proof -
  have "of_int \<lfloor>q\<rfloor> \<le> q" "q < of_int \<lfloor>q\<rfloor> + 1" by linarith+
  then show ?thesis unfolding round_even_def Let_def
    by (auto simp: abs_if; linarith)
qed

lemma RN_err:
  assumes "0 \<le> x"
  shows "\<bar>RN x - x\<bar> \<le> x / 2 ^ 53"
proof (cases "x = 0")
  case True then show ?thesis by (simp add: RN_def)
next
  case False
  with assms have x: "0 < x" by simp
  define u :: rat where "u = 2 powi (binexp x - 52)"
  have upos: "0 < u" unfolding u_def by simp
  have u: "u = 2 powi (binexp x) / 2 ^ 52"
    unfolding u_def by (simp add: power_int_diff)
  have ule: "u \<le> x / 2 ^ 52" unfolding u using binexp_bounds(1)[OF x]
    by (simp add: divide_right_mono)
  have R: "RN x = of_int (round_even (x / u)) * u"
    using x by (simp add: RN_def u_def Let_def)
  have "RN x - x = (of_int (round_even (x / u)) - x / u) * u"
    unfolding R using upos by (simp add: algebra_simps)
  then have "\<bar>RN x - x\<bar> = \<bar>of_int (round_even (x / u)) - x / u\<bar> * u"
    using upos by (simp add: abs_mult)
  also have "\<dots> \<le> (1 / 2) * u"
    using round_even_err[of "x / u"] upos by (intro mult_right_mono) simp_all
  also have "\<dots> \<le> (1 / 2) * (x / 2 ^ 52)" using ule by simp
  also have "\<dots> = x / 2 ^ 53" by simp
  finally show ?thesis .
qed

lemma RN_between:
  assumes "0 \<le> x"
  shows "x - x / 2 ^ 53 \<le> RN x" and "RN x \<le> x + x / 2 ^ 53"
proof -
  have "RN x - x \<le> x / 2 ^ 53" using RN_err[OF assms] by (rule abs_le_D1)
  then show "RN x \<le> x + x / 2 ^ 53" by linarith
  have "- (RN x - x) \<le> x / 2 ^ 53" using RN_err[OF assms] by (rule abs_le_D2)
  then show "x - x / 2 ^ 53 \<le> RN x" by linarith
qed

lemma computed_product_bounds:
  fixes n r1 r2 :: nat
  assumes r1: "0 < r1" and K: "n * r2 \<le> 2 ^ 51"
  defines "E \<equiv> (of_nat (n * r2) :: rat) / of_nat r1"
  defines "p \<equiv> RN (of_nat n * RN (of_nat r2 / of_nat r1))"
  shows "E - 3 / 4 \<le> p" and "p \<le> E + (3 / 4) / of_nat r1"
proof -
  define e :: rat where "e = 1 / 2 ^ 53"
  define \<rho> :: rat where "\<rho> = of_nat r2 / of_nat r1"
  define P :: rat where "P = of_nat n * RN \<rho>"
  have r1pos: "(0::rat) < of_nat r1" using r1 by simp
  have r1ge: "(1::rat) \<le> of_nat r1" using r1 by (simp add: Suc_leI)
  have \<rho>0: "0 \<le> \<rho>" unfolding \<rho>_def by simp
  have E0: "0 \<le> E" unfolding E_def by simp
  have En: "E = of_nat n * \<rho>" unfolding E_def \<rho>_def by simp
  have e0: "0 \<le> e" "e \<le> 1" unfolding e_def by simp_all
  have Kq: "(of_nat (n * r2) :: rat) \<le> 2 ^ 51"
  proof -
    have "(of_nat (n * r2) :: rat) \<le> of_nat (2 ^ 51)" using K by (simp only: of_nat_le_iff)
    then show ?thesis by simp
  qed
  have Ke: "of_nat (n * r2) * e \<le> 1 / 4"
  proof -
    have "of_nat (n * r2) * e \<le> 2 ^ 51 * e" using Kq e0 by (intro mult_right_mono)
    also have "\<dots> = 1 / 4" unfolding e_def by simp
    finally show ?thesis .
  qed
  have Ee_r: "E * e = (of_nat (n * r2) * e) / of_nat r1" unfolding E_def by simp
  have Ee1: "E * e \<le> (1 / 4) / of_nat r1"
    unfolding Ee_r using Ke by (rule divide_right_mono) simp
  have "(1 / 4) / of_nat r1 \<le> (1 / 4 :: rat)" using r1ge r1pos
    by (simp add: field_simps)
  with Ee1 have Ee2: "E * e \<le> 1 / 4" by linarith
  have Ee0: "0 \<le> E * e" using E0 e0 by simp
  have \<rho>b: "\<rho> - \<rho> * e \<le> RN \<rho>" "RN \<rho> \<le> \<rho> + \<rho> * e"
    using RN_between[OF \<rho>0] unfolding e_def by simp_all
  have n0: "(0::rat) \<le> of_nat n" by simp
  have Pb: "E - E * e \<le> P" "P \<le> E + E * e"
  proof -
    have "of_nat n * (\<rho> - \<rho> * e) \<le> of_nat n * RN \<rho>"
      using \<rho>b(1) n0 by (rule mult_left_mono)
    then show "E - E * e \<le> P" unfolding P_def En by (simp add: algebra_simps)
    have "of_nat n * RN \<rho> \<le> of_nat n * (\<rho> + \<rho> * e)"
      using \<rho>b(2) n0 by (rule mult_left_mono)
    then show "P \<le> E + E * e" unfolding P_def En by (simp add: algebra_simps)
  qed
  have "E * e \<le> E * 1" using e0 E0 by (intro mult_left_mono)
  then have P0: "0 \<le> P" using Pb(1) by simp
  have Pe: "P * e \<le> 2 * (E * e)"
  proof -
    have "P * e \<le> (E + E * e) * e" using Pb(2) e0 by (intro mult_right_mono)
    also have "\<dots> = E * e + (E * e) * e" by (simp add: algebra_simps)
    also have "(E * e) * e \<le> (E * e) * 1" using e0 Ee0 by (intro mult_left_mono)
    finally show ?thesis by simp
  qed
  have pP: "p = RN P" unfolding p_def P_def \<rho>_def ..
  have pb: "P - P * e \<le> p" "p \<le> P + P * e"
    using RN_between[OF P0] unfolding pP e_def by simp_all
  show "E - 3 / 4 \<le> p" using pb(1) Pb(1) Pe Ee2 by linarith
  have "p \<le> E + 3 * (E * e)" using pb(2) Pb(2) Pe by linarith
  also have "\<dots> \<le> E + 3 * ((1 / 4) / of_nat r1)" using Ee1 by simp
  finally show "p \<le> E + (3 / 4) / of_nat r1" by simp
qed

lemma computed_len_bounds:
  fixes n r1 r2 :: nat
  assumes r1: "0 < r1" and K: "n * r2 \<le> 2 ^ 51"
  shows "computed_len n r1 r2 \<le> max 1 (int (n * r2 div r1))"
    and "max 1 (int (n * r2 div r1)) \<le> computed_len n r1 r2 + 1"
proof -
  define q where "q = n * r2 div r1"
  define E :: rat where "E = of_nat (n * r2) / of_nat r1"
  define p where "p = RN (of_nat n * RN (of_nat r2 / of_nat r1))"
  have r1pos: "(0::rat) < of_nat r1" using r1 by simp
  have b: "E - 3 / 4 \<le> p" "p \<le> E + (3 / 4) / of_nat r1"
    using computed_product_bounds[OF r1 K] unfolding E_def p_def by simp_all
  have "q * r1 \<le> n * r2" unfolding q_def by simp
  then have "(of_nat (q * r1) :: rat) \<le> of_nat (n * r2)" by (simp only: of_nat_le_iff)
  then have qE: "of_nat q \<le> E" unfolding E_def using r1pos by (simp add: field_simps)
  have "n * r2 < (q + 1) * r1" unfolding q_def using r1
    by (metis Suc_eq_plus1 dividend_less_div_times mult.commute mult_Suc add.commute)
  then have "n * r2 + 1 \<le> (q + 1) * r1" by simp
  then have "(of_nat (n * r2 + 1) :: rat) \<le> of_nat ((q + 1) * r1)" by (simp only: of_nat_le_iff)
  then have "(of_nat (n * r2) + 1) / of_nat r1 \<le> (of_nat q + 1 :: rat)"
    using r1pos by (simp add: field_simps)
  then have Eq: "E + 1 / of_nat r1 \<le> of_nat q + 1" unfolding E_def by (simp add: add_divide_distrib)
  have "(3 / 4) / (of_nat r1 :: rat) < 1 / of_nat r1" using r1pos by (simp add: field_simps)
  with b(2) Eq have up: "p < of_nat q + 1" by linarith
  have lo: "of_nat q - 1 < p" using b(1) qE by linarith
  define f where "f = \<lfloor>p\<rfloor>"
  have "p < of_int (int q + 1)" using up by simp
  then have f1: "f < int q + 1" unfolding f_def by (simp only: floor_less_iff)
  have "of_int (int q - 1) \<le> p" using lo by simp
  then have f2: "int q - 1 \<le> f" unfolding f_def by (simp only: le_floor_iff)
  have c: "computed_len n r1 r2 = max 1 f" unfolding computed_len_def p_def f_def ..
  show "computed_len n r1 r2 \<le> max 1 (int (n * r2 div r1))"
    unfolding c q_def[symmetric] using f1 by linarith
  show "max 1 (int (n * r2 div r1)) \<le> computed_len n r1 r2 + 1"
    unfolding c q_def[symmetric] using f2 by linarith
qed

section \<open>Properties of the resampler\<close>

lemma RN_0: "RN 0 = 0" by (simp add: RN_def)

lemma trunc_floor: "trunc (of_int k) = k"
  by (simp add: trunc_def)

lemma resample_computed_len:
  assumes "0 < srcRate" "srcRate \<noteq> dstRate"
    "computed_len (length pcm) srcRate dstRate \<le> 2 ^ 53 - 1"
  shows "\<exists>out. resampleInt16Mono pcm srcRate dstRate = Inr out
           \<and> int (length out) = computed_len (length pcm) srcRate dstRate"
proof -
  let ?p = "RN (of_nat (length pcm) * RN (of_nat dstRate / of_nat srcRate))"
  have m: "math_max (Fin 1) (Fin (of_int \<lfloor>?p\<rfloor>))
        = Fin (of_int (computed_len (length pcm) srcRate dstRate))"
    by (simp add: math_max_def computed_len_def max_def)
  have "1 \<le> computed_len (length pcm) srcRate dstRate" by (simp add: computed_len_def)
  then show ?thesis
    using assms unfolding resampleInt16Mono_def Let_def
    by (simp add: m trunc_floor del: of_int_max)
qed

lemma cl_example: "computed_len 400 16000 37800 = 944"
proof -
  have "\<lfloor>RN (400 * RN (37800 / 16000))\<rfloor> = 944" by code_simp
  then show ?thesis unfolding computed_len_def by simp
qed

text \<open>
  Claim C7 fails as stated: 400 samples resampled from 16000 Hz to 37800 Hz give 944
  samples, while \<open>max(1, floor(400 * 37800 / 16000))\<close> is 945 in exact arithmetic.
\<close>

theorem resample_length_counterexample:
  "map_sum id length (resampleInt16Mono (replicate 400 0) 16000 37800) = Inr 944
   \<and> max 1 ((400 * 37800) div 16000) = (945 :: nat)"
proof -
  have "computed_len (length (replicate 400 (0::int16))) 16000 37800 \<le> 2 ^ 53 - 1"
    by (simp add: cl_example)
  from resample_computed_len[of 16000 37800 "replicate 400 0", OF _ _ this]
  show ?thesis by (auto simp: cl_example)
qed

text \<open>
  Claim C7, amended. For every sample array and distinct rates with a positive source
  rate (and \<open>len * dstRate\<close> at most \<open>2 ^ 51\<close>), the output has length
  \<open>max(1, floor(len * (dstRate / srcRate)))\<close> with the quotient and the product each
  rounded to binary64; that length never exceeds the exact
  \<open>max(1, floor(len * dstRate / srcRate))\<close> and falls short of it by at most one.
\<close>

theorem resample_length:
  assumes "0 < srcRate" "srcRate \<noteq> dstRate" "length pcm * dstRate \<le> 2 ^ 51"
  shows "\<exists>out. resampleInt16Mono pcm srcRate dstRate = Inr out
     \<and> int (length out)
         = max 1 \<lfloor>RN (of_nat (length pcm) * RN (of_nat dstRate / of_nat srcRate))\<rfloor>
     \<and> length out \<le> max 1 (length pcm * dstRate div srcRate)
     \<and> max 1 (length pcm * dstRate div srcRate) \<le> length out + 1"
proof -
  let ?q = "length pcm * dstRate div srcRate"
  note b = computed_len_bounds[OF assms(1,3)]
  have "?q \<le> length pcm * dstRate" by (rule div_le_dividend)
  also have "\<dots> \<le> 2 ^ 51" by (rule assms(3))
  finally have "int ?q \<le> 2 ^ 51" by (metis of_nat_le_iff of_nat_numeral of_nat_power)
  then have "max 1 (int ?q) \<le> 2 ^ 53 - 1" by simp
  with b(1) have "computed_len (length pcm) srcRate dstRate \<le> 2 ^ 53 - 1" by linarith
  from resample_computed_len[OF assms(1,2) this]
  obtain out where out: "resampleInt16Mono pcm srcRate dstRate = Inr out"
    "int (length out) = computed_len (length pcm) srcRate dstRate" by blast
  have 1: "int (length out)
         = max 1 \<lfloor>RN (of_nat (length pcm) * RN (of_nat dstRate / of_nat srcRate))\<rfloor>"
    using out(2) by (simp only: computed_len_def)
  have 2: "length out \<le> max 1 ?q" using b(1) out(2) by linarith
  have 3: "max 1 ?q \<le> length out + 1" using b(2) out(2) by linarith
  from out(1) 1 2 3 show ?thesis by blast
qed

theorem resample_length_witness:
  "\<exists>out. resampleInt16Mono (replicate 400 0) 16000 37800 = Inr out
     \<and> length out \<le> 945 \<and> 945 \<le> length out + 1"
  using resample_length[of 16000 37800 "replicate 400 0"] by auto

text \<open>
  Claim C10 fails for a source rate of 0: the ratio is infinite, 0 times infinity is
  \<open>NaN\<close>, and \<open>new Int16Array(NaN)\<close> has length 0, so the result is the empty array.
\<close>

theorem resample_empty_zero_src:
  "resampleInt16Mono [] 0 16000 = Inr []"
  by (simp add: resampleInt16Mono_def inf_of_sign_def math_max_def)

lemma resample_at_empty: "resample_at [] (Fin r) 0 = 0"
  by (simp add: resample_at_def Let_def inf_of_sign_def RN_0 fsub_def math_min_def math_max_def)

text \<open>
  Claim C10, amended. For the empty sample array and any two distinct rates of which
  the source rate is not 0, \<open>resampleInt16Mono\<close> returns an array of length 1 whose
  sample is 0 (the interpolation reads past the end of the input, the \<open>NaN\<close> is stored
  as 0); it does not throw.
\<close>

theorem resample_empty:
  assumes "0 < srcRate" "srcRate \<noteq> dstRate"
  shows "resampleInt16Mono [] srcRate dstRate = Inr [0]"
  using assms
  by (simp add: resampleInt16Mono_def Let_def RN_0 math_max_def trunc_def resample_at_empty)

theorem resample_empty_witness:
  "resampleInt16Mono [] 48000 16000 = Inr [0] \<and> resampleInt16Mono [] 16000 0 = Inr [0]"
  using resample_empty[of 48000 16000] resample_empty[of 16000 0] by simp

end
